theory Spec2Isabelle
  imports Complex_Main "HOL-Library.Multiset"
begin

section \<open>Values of the input document\<close>

text \<open>
  \<^verbatim>\<open>plot_hsr.py\<close> works on what \<^verbatim>\<open>json.load\<close> returns and never checks a type, so
  the value of an event and the fields of the initial context are modelled as Python
  values. Numbers are exact rationals (an \<^verbatim>\<open>int\<close> and a \<^verbatim>\<open>float\<close> of Python compare by
  value, rounding is not modelled); JSON objects are left out, no handler reads one.
  Event timestamps and the declared duration are integers (milliseconds) and a path is a
  list of strings, as the input format has them; a field that may be missing is an
  \<open>option\<close>, \<open>None\<close> for the missing key.
\<close>

datatype pyval =
    PNone
  | PBool bool
  | PNum rat
  | PStr string
  | PList "pyval list"

datatype error = TypeError | IndexError

text \<open>Sequencing of two steps of which the first may raise.\<close>

definition bind :: "error + 'a \<Rightarrow> ('a \<Rightarrow> error + 'b) \<Rightarrow> error + 'b" where
  "bind m f = (case m of Inl e \<Rightarrow> Inl e | Inr x \<Rightarrow> f x)"

text \<open>The number a value stands for in arithmetic and comparison; \<^verbatim>\<open>bool\<close> is a subtype
  of \<^verbatim>\<open>int\<close> in Python.\<close>

fun num_of :: "pyval \<Rightarrow> rat option" where
  "num_of (PBool b) = Some (if b then 1 else 0)"
| "num_of (PNum r) = Some r"
| "num_of v = None"

text \<open>Truth value testing (\<^verbatim>\<open>if v:\<close>).\<close>

fun truthy :: "pyval \<Rightarrow> bool" where
  "truthy PNone = False"
| "truthy (PBool b) = b"
| "truthy (PNum r) = (r \<noteq> 0)"
| "truthy (PStr s) = (s \<noteq> [])"
| "truthy (PList xs) = (xs \<noteq> [])"

text \<open>\<^verbatim>\<open>list(v)\<close>: a list is copied, a string gives its characters, anything else is not
  iterable.\<close>

fun py_list :: "pyval \<Rightarrow> error + pyval list" where
  "py_list (PList xs) = Inr xs"
| "py_list (PStr s) = Inr (map (\<lambda>c. PStr [c]) s)"
| "py_list v = Inl TypeError"

text \<open>\<^verbatim>\<open>v[i]\<close> for an index \<open>i \<ge> 0\<close>.\<close>

fun py_index :: "pyval \<Rightarrow> nat \<Rightarrow> error + pyval" where
  "py_index (PList xs) i = (if i < length xs then Inr (xs ! i) else Inl IndexError)"
| "py_index (PStr s) i = (if i < length s then Inr (PStr [s ! i]) else Inl IndexError)"
| "py_index v i = Inl TypeError"

text \<open>\<^verbatim>\<open>xs[-1]\<close> on a list.\<close>

definition py_last :: "'a list \<Rightarrow> error + 'a" where
  "py_last xs = (if xs = [] then Inl IndexError else Inr (last xs))"

text \<open>\<^verbatim>\<open>v == w\<close>.\<close>

fun py_eq :: "pyval \<Rightarrow> pyval \<Rightarrow> bool"
  and py_eq_list :: "pyval list \<Rightarrow> pyval list \<Rightarrow> bool" where
  "py_eq PNone w = (w = PNone)"
| "py_eq (PStr s) w = (w = PStr s)"
| "py_eq (PList xs) (PList ys) = py_eq_list xs ys"
| "py_eq (PList xs) w = False"
| "py_eq v w = (num_of w \<noteq> None \<and> num_of v = num_of w)"
| "py_eq_list [] ys = (ys = [])"
| "py_eq_list (x # xs) [] = False"
| "py_eq_list (x # xs) (y # ys) = (py_eq x y \<and> py_eq_list xs ys)"

text \<open>\<^verbatim>\<open>s < t\<close> on strings: lexicographic on the character codes.\<close>

fun str_lt :: "string \<Rightarrow> string \<Rightarrow> bool" where
  "str_lt [] [] = False"
| "str_lt [] (y # ys) = True"
| "str_lt (x # xs) [] = False"
| "str_lt (x # xs) (y # ys) =
     ((of_char x :: nat) < of_char y \<or> (x = y \<and> str_lt xs ys))"

text \<open>\<^verbatim>\<open>v < w\<close>; \<open>None\<close> is the \<^verbatim>\<open>TypeError\<close> of an unordered pair of types. Lists compare
  at their first unequal elements.\<close>

fun py_lt :: "pyval \<Rightarrow> pyval \<Rightarrow> bool option"
  and py_lt_list :: "pyval list \<Rightarrow> pyval list \<Rightarrow> bool option" where
  "py_lt (PStr s) (PStr t) = Some (str_lt s t)"
| "py_lt (PList xs) (PList ys) = py_lt_list xs ys"
| "py_lt v w =
     (case (num_of v, num_of w) of
        (Some a, Some b) \<Rightarrow> Some (a < b)
      | _ \<Rightarrow> None)"
| "py_lt_list [] [] = Some False"
| "py_lt_list [] (y # ys) = Some True"
| "py_lt_list (x # xs) [] = Some False"
| "py_lt_list (x # xs) (y # ys) =
     (if py_eq x y then py_lt_list xs ys else py_lt x y)"

section \<open>The input document\<close>

record event =
  ts :: "int option"
  path :: "string list"
  val :: pyval
  event_type :: "string option"

record gen_context =
  intensity :: "pyval option"
  adjust :: "pyval option"
  mode :: "pyval option"

record boost_context =
  init_shockMode :: "pyval option"
  init_channels :: "pyval option"
  init_duration :: "pyval option"
  init_offset :: "pyval option"

record initial_context =
  generator1 :: gen_context
  generator2 :: gen_context
  init_boost :: boost_context

record document =
  metadata_duration :: "int option"
  initialContext :: initial_context
  data :: "event list"

section \<open>The state of \<^verbatim>\<open>process_stimulation_data\<close>\<close>

record plot =
  time_data :: "rat list"
  value_data :: "pyval list"

record generator =
  base_intensity :: pyval
  plot_data :: plot
  adjust_value :: pyval
  adjust_plot_data :: plot

record boost_state =
  shockMode :: pyval
  channels :: pyval
  duration :: pyval
  offset :: pyval

record state =
  g1 :: generator
  g2 :: generator
  boost :: boost_state
  modes_g1 :: "(int \<times> pyval) list"
  modes_g2 :: "(int \<times> pyval) list"
  fire_events :: "(int \<times> pyval list) list"
  current_boost_channels :: "pyval list"

datatype gen_key = G1 | G2

fun gen :: "gen_key \<Rightarrow> state \<Rightarrow> generator" where
  "gen G1 s = g1 s"
| "gen G2 s = g2 s"

fun set_gen :: "gen_key \<Rightarrow> generator \<Rightarrow> state \<Rightarrow> state" where
  "set_gen G1 g s = s\<lparr>g1 := g\<rparr>"
| "set_gen G2 g s = s\<lparr>g2 := g\<rparr>"

fun modes :: "gen_key \<Rightarrow> state \<Rightarrow> (int \<times> pyval) list" where
  "modes G1 s = modes_g1 s"
| "modes G2 s = modes_g2 s"

fun set_modes :: "gen_key \<Rightarrow> (int \<times> pyval) list \<Rightarrow> state \<Rightarrow> state" where
  "set_modes G1 m s = s\<lparr>modes_g1 := m\<rparr>"
| "set_modes G2 m s = s\<lparr>modes_g2 := m\<rparr>"

text \<open>The position of a channel in the mask: \<^verbatim>\<open>enumerate(['g1', 'g2'])\<close>.\<close>

fun chan_index :: "gen_key \<Rightarrow> nat" where
  "chan_index G1 = 0"
| "chan_index G2 = 1"

text \<open>One \<^verbatim>\<open>['time'].append(t)\<close> together with its \<^verbatim>\<open>['value'].append(v)\<close>.\<close>

definition append_sample :: "rat \<Rightarrow> pyval \<Rightarrow> plot \<Rightarrow> plot" where
  "append_sample t v p =
     p\<lparr>time_data := time_data p @ [t], value_data := value_data p @ [v]\<rparr>"

definition plot_append :: "gen_key \<Rightarrow> rat \<Rightarrow> pyval \<Rightarrow> state \<Rightarrow> state" where
  "plot_append k t v s =
     set_gen k ((gen k s)\<lparr>plot_data := append_sample t v (plot_data (gen k s))\<rparr>) s"

definition adjust_plot_append :: "gen_key \<Rightarrow> rat \<Rightarrow> pyval \<Rightarrow> state \<Rightarrow> state" where
  "adjust_plot_append k t v s =
     set_gen k
       ((gen k s)\<lparr>adjust_plot_data := append_sample t v (adjust_plot_data (gen k s))\<rparr>) s"

section \<open>State initialisation (lines 51 to 106)\<close>

definition get_default :: "'a option \<Rightarrow> 'a \<Rightarrow> 'a" where
  "get_default field d = (case field of None \<Rightarrow> d | Some v \<Rightarrow> v)"

definition init_generator :: "gen_context \<Rightarrow> generator" where
  "init_generator c =
     (let b = get_default (intensity c) (PNum 0);
          a = get_default (adjust c) (PNum 50)
      in \<lparr>base_intensity = b,
          plot_data = \<lparr>time_data = [0], value_data = [b]\<rparr>,
          adjust_value = a,
          adjust_plot_data = \<lparr>time_data = [0], value_data = [a]\<rparr>\<rparr>)"

definition init_boost_state :: "boost_context \<Rightarrow> boost_state" where
  "init_boost_state c =
     \<lparr>shockMode = get_default (init_shockMode c) (PBool False),
      channels = get_default (init_channels c) (PList [PBool False, PBool False]),
      duration = get_default (init_duration c) (PNum (1 / 10)),
      offset = get_default (init_offset c) (PNum 0)\<rparr>"

text \<open>\<^verbatim>\<open>initial_context.get(..., {}).get('mode')\<close> is \<^verbatim>\<open>None\<close> for an absent field, and the
  entry is appended under \<^verbatim>\<open>if g1_initial_mode:\<close>.\<close>

definition init_modes :: "gen_context \<Rightarrow> (int \<times> pyval) list" where
  "init_modes c =
     (let initial_mode = get_default (mode c) PNone
      in if truthy initial_mode then [(0, initial_mode)] else [])"

definition init_state :: "document \<Rightarrow> error + state" where
  "init_state d =
     (let ic = initialContext d; b = init_boost_state (init_boost ic)
      in bind (py_list (channels b)) (\<lambda>cur.
           Inr \<lparr>g1 = init_generator (generator1 ic),
                g2 = init_generator (generator2 ic),
                boost = b,
                modes_g1 = init_modes (generator1 ic),
                modes_g2 = init_modes (generator2 ic),
                fire_events = [],
                current_boost_channels = cur\<rparr>))"

section \<open>The event loop (lines 108 to 182)\<close>

text \<open>One round of the loop over the channels at a change of \<^verbatim>\<open>shockMode\<close>
  (lines 130 to 138).\<close>

definition shock_channel :: "int \<Rightarrow> pyval \<Rightarrow> gen_key \<Rightarrow> state \<Rightarrow> error + state" where
  "shock_channel t is_entering_shock k s =
     bind (py_index (channels (boost s)) (chan_index k)) (\<lambda>c.
       if truthy c then
         if truthy is_entering_shock then Inr (plot_append k (of_int t) (PNum 0) s)
         else Inr (plot_append k (of_int t) (base_intensity (gen k s)) s)
       else Inr s)"

text \<open>One round of the loop over the channels at a fire action (lines 148 to 164).
  \<^verbatim>\<open>ts + duration * 1000\<close> and \<^verbatim>\<open>min(100, base + offset)\<close> raise \<^verbatim>\<open>TypeError\<close> unless their
  operands are numbers.\<close>

definition fire_channel :: "int \<Rightarrow> gen_key \<Rightarrow> state \<Rightarrow> error + state" where
  "fire_channel t k s =
     bind (py_index (channels (boost s)) (chan_index k)) (\<lambda>c.
       if truthy c then
         if truthy (shockMode (boost s)) then
           (case num_of (duration (boost s)) of
              None \<Rightarrow> Inl TypeError
            | Some d \<Rightarrow>
                (let duration_ms = d * 1000
                 in Inr (plot_append k (of_int t + duration_ms) (PNum 0)
                           (plot_append k (of_int t) (base_intensity (gen k s)) s))))
         else
           (case (num_of (base_intensity (gen k s)), num_of (offset (boost s))) of
              (Some b, Some off) \<Rightarrow>
                (let boosted_val = min 100 (b + off)
                 in bind (py_last (value_data (plot_data (gen k s)))) (\<lambda>current_val.
                      Inr (plot_append k (of_int (t + 1)) current_val
                             (plot_append k (of_int t) (PNum boosted_val) s))))
            | _ \<Rightarrow> Inl TypeError)
       else Inr s)"

text \<open>\<^verbatim>\<open>state['boost'][prop] = value\<close> for a key of \<^verbatim>\<open>state['boost']\<close>.\<close>

definition set_boost :: "string \<Rightarrow> pyval \<Rightarrow> boost_state \<Rightarrow> boost_state" where
  "set_boost prop v b =
     (if prop = ''shockMode'' then b\<lparr>shockMode := v\<rparr>
      else if prop = ''channels'' then b\<lparr>channels := v\<rparr>
      else if prop = ''duration'' then b\<lparr>duration := v\<rparr>
      else if prop = ''offset'' then b\<lparr>offset := v\<rparr>
      else b)"

definition boost_keys :: "string list" where
  "boost_keys = [''shockMode'', ''channels'', ''duration'', ''offset'']"

text \<open>The branch \<^verbatim>\<open>path[0] == 'boost'\<close> (lines 118 to 164), after \<^verbatim>\<open>prop = path[1]\<close>.\<close>

definition boost_event :: "int \<Rightarrow> string \<Rightarrow> pyval \<Rightarrow> string option \<Rightarrow> state \<Rightarrow> error + state" where
  "boost_event t prop v ty s =
     (if prop = ''channels'' then
        bind (py_list v) (\<lambda>cur.
          Inr (s\<lparr>current_boost_channels := cur, boost := (boost s)\<lparr>channels := v\<rparr>\<rparr>))
      else if prop \<in> set boost_keys then
        if prop = ''shockMode'' \<and> \<not> py_eq (shockMode (boost s)) v then
          bind (shock_channel t v G1 (s\<lparr>boost := (boost s)\<lparr>shockMode := v\<rparr>\<rparr>))
            (shock_channel t v G2)
        else Inr (s\<lparr>boost := set_boost prop v (boost s)\<rparr>)
      else if prop = ''fire'' \<and> ty = Some ''action'' then
        bind (fire_channel t G1
                (s\<lparr>fire_events := fire_events s @ [(t, current_boost_channels s)]\<rparr>))
          (fire_channel t G2)
      else Inr s)"

text \<open>The branch \<^verbatim>\<open>path[0] in ['generator1', 'generator2']\<close> (lines 167 to 182). The
  \<^verbatim>\<open>and\<close> of line 173 does not read the mask when \<^verbatim>\<open>shockMode\<close> is false.\<close>

definition generator_event :: "int \<Rightarrow> gen_key \<Rightarrow> string \<Rightarrow> pyval \<Rightarrow> state \<Rightarrow> error + state" where
  "generator_event t k prop v s =
     (if prop = ''intensity'' then
        (let s1 = set_gen k ((gen k s)\<lparr>base_intensity := v\<rparr>) s
         in if truthy (shockMode (boost s1)) then
              bind (py_index (channels (boost s1)) (chan_index k)) (\<lambda>is_in_shock.
                if \<not> truthy is_in_shock then Inr (plot_append k (of_int t) v s1)
                else Inr s1)
            else Inr (plot_append k (of_int t) v s1))
      else if prop = ''mode'' then
        Inr (set_modes k (modes k s @ [(t, v)]) s)
      else if prop = ''adjust'' then
        Inr (adjust_plot_append k (of_int t) v
               (set_gen k ((gen k s)\<lparr>adjust_value := v\<rparr>) s))
      else Inr s)"

text \<open>The body of the loop. \<^verbatim>\<open>path[1]\<close> raises \<^verbatim>\<open>IndexError\<close> on a path of one segment.\<close>

definition step :: "state \<Rightarrow> event \<Rightarrow> error + state" where
  "step s e =
     (case ts e of
        None \<Rightarrow> Inr s
      | Some t \<Rightarrow>
          (case path e of
             [] \<Rightarrow> Inr s
           | p0 # rest \<Rightarrow>
               if p0 = ''boost'' then
                 (case rest of
                    [] \<Rightarrow> Inl IndexError
                  | prop # _ \<Rightarrow> boost_event t prop (val e) (event_type e) s)
               else if p0 = ''generator1'' \<or> p0 = ''generator2'' then
                 (case rest of
                    [] \<Rightarrow> Inl IndexError
                  | prop # _ \<Rightarrow>
                      generator_event t (if p0 = ''generator1'' then G1 else G2) prop (val e) s)
               else Inr s))"

fun dispatch :: "state \<Rightarrow> event list \<Rightarrow> error + state" where
  "dispatch s [] = Inr s"
| "dispatch s (e # es) = bind (step s e) (\<lambda>s'. dispatch s' es)"

section \<open>Session end and finalisation (lines 185 to 214)\<close>

text \<open>\<^verbatim>\<open>event.get('ts', 0)\<close>: the key of the sort and the operand of \<^verbatim>\<open>max\<close>.\<close>

definition ts_or_0 :: "event \<Rightarrow> int" where
  "ts_or_0 e = get_default (ts e) 0"

definition max_ts_in_data :: "event list \<Rightarrow> int" where
  "max_ts_in_data es = (case es of [] \<Rightarrow> 0 | e # es' \<Rightarrow> fold max (map ts_or_0 es') (ts_or_0 e))"

definition total_duration_ms :: "document \<Rightarrow> int" where
  "total_duration_ms d = max (get_default (metadata_duration d) 0) (max_ts_in_data (data d))"

definition extend_adjust :: "int \<Rightarrow> gen_key \<Rightarrow> state \<Rightarrow> state" where
  "extend_adjust total_ms k s =
     (let tm = time_data (adjust_plot_data (gen k s))
      in if tm \<noteq> [] \<and> last tm < of_int total_ms
         then adjust_plot_append k (of_int total_ms) (adjust_value (gen k s)) s
         else s)"

text \<open>The order of two \<^verbatim>\<open>(time, value)\<close> tuples: the times decide unless they are equal,
  then the values do, and two values that are not equal and not ordered raise.\<close>

definition pair_lt :: "rat \<times> pyval \<Rightarrow> rat \<times> pyval \<Rightarrow> bool option" where
  "pair_lt a b =
     (if fst a \<noteq> fst b then Some (fst a < fst b)
      else if py_eq (snd a) (snd b) then Some False
      else py_lt (snd a) (snd b))"

text \<open>\<^verbatim>\<open>sorted\<close> on such tuples, as a stable insertion sort in which a \<^verbatim>\<open>TypeError\<close> of
  the comparison ends the sort. Where every comparison succeeds the result is the one
  stable sorted order, whichever comparisons the sort of Python makes.\<close>

fun py_insort :: "rat \<times> pyval \<Rightarrow> (rat \<times> pyval) list \<Rightarrow> error + (rat \<times> pyval) list" where
  "py_insort x [] = Inr [x]"
| "py_insort x (y # ys) =
     (case pair_lt y x of
        None \<Rightarrow> Inl TypeError
      | Some True \<Rightarrow> bind (py_insort x ys) (\<lambda>zs. Inr (y # zs))
      | Some False \<Rightarrow> Inr (x # y # ys))"

fun py_sorted :: "(rat \<times> pyval) list \<Rightarrow> error + (rat \<times> pyval) list" where
  "py_sorted [] = Inr []"
| "py_sorted (x # xs) = bind (py_sorted xs) (py_insort x)"

definition sort_plot :: "plot \<Rightarrow> error + plot" where
  "sort_plot p =
     bind (py_sorted (zip (time_data p) (value_data p))) (\<lambda>sorted_pairs.
       Inr \<lparr>time_data = map fst sorted_pairs, value_data = map snd sorted_pairs\<rparr>)"

definition sort_generator :: "gen_key \<Rightarrow> state \<Rightarrow> error + state" where
  "sort_generator k s =
     bind (sort_plot (plot_data (gen k s))) (\<lambda>p.
       bind (sort_plot (adjust_plot_data (gen k s))) (\<lambda>a.
         Inr (set_gen k ((gen k s)\<lparr>plot_data := p, adjust_plot_data := a\<rparr>) s)))"

definition finalize :: "int \<Rightarrow> state \<Rightarrow> error + state" where
  "finalize total_ms s =
     bind (sort_generator G1 (extend_adjust total_ms G2 (extend_adjust total_ms G1 s)))
       (sort_generator G2)"

text \<open>The state after the event loop, before the series are extended and sorted.\<close>

definition replay :: "document \<Rightarrow> error + state" where
  "replay d = bind (init_state d) (\<lambda>s. dispatch s (sort_key ts_or_0 (data d)))"

definition process_stimulation_data :: "document \<Rightarrow> error + state" where
  "process_stimulation_data d = bind (replay d) (finalize (total_duration_ms d))"

section \<open>The command line (lines 219 to 334)\<close>


record run =
  stdout :: "string list"
  image_saved :: bool
  exit_status :: nat





section \<open>What the specification says, for comparison\<close>

text \<open>The session end of the specification: the maximum of the declared duration, of the
  timestamps of the raw events, and of 0.\<close>

definition spec_session_end :: "document \<Rightarrow> int" where
  "spec_session_end d =
     fold max
       ((case metadata_duration d of None \<Rightarrow> [] | Some x \<Rightarrow> [x])
          @ concat (map (\<lambda>e. case ts e of None \<Rightarrow> [] | Some t \<Rightarrow> [t]) (data d)))
       0"

text \<open>The finalisation of the specification: a stable sort of the appended samples by
  timestamp alone.\<close>

definition spec_stable_sort :: "plot \<Rightarrow> plot" where
  "spec_stable_sort p =
     (let sorted_pairs = sort_key fst (zip (time_data p) (value_data p))
      in \<lparr>time_data = map fst sorted_pairs, value_data = map snd sorted_pairs\<rparr>)"

section \<open>Predicates on events and states\<close>

text \<open>An event whose first path segment is neither a channel nor the override
  namespace.\<close>

definition unknown_first :: "event \<Rightarrow> bool" where
  "unknown_first e =
     (case path e of
        [] \<Rightarrow> False
      | p0 # rest \<Rightarrow> p0 \<noteq> ''boost'' \<and> p0 \<noteq> ''generator1'' \<and> p0 \<noteq> ''generator2'')"

text \<open>An event of two segments or more whose first segment is recognised and whose second
  is no field that a handler knows.\<close>

definition unknown_field :: "event \<Rightarrow> bool" where
  "unknown_field e =
     (case path e of
        p0 # prop # rest \<Rightarrow>
          (p0 = ''boost'' \<and> prop \<notin> set (''fire'' # boost_keys))
          \<or> ((p0 = ''generator1'' \<or> p0 = ''generator2'')
              \<and> prop \<notin> set [''intensity'', ''mode'', ''adjust''])
      | _ \<Rightarrow> False)"

text \<open>A fire action: \<^verbatim>\<open>path[0] == 'boost'\<close>, \<^verbatim>\<open>path[1] == 'fire'\<close>, type \<^verbatim>\<open>'action'\<close>.\<close>

definition is_fire :: "event \<Rightarrow> bool" where
  "is_fire e =
     (case path e of
        p0 # prop # rest \<Rightarrow> p0 = ''boost'' \<and> prop = ''fire'' \<and> event_type e = Some ''action''
      | _ \<Rightarrow> False)"

text \<open>An intensity update of channel \<open>k\<close>.\<close>

definition is_intensity_update :: "gen_key \<Rightarrow> event \<Rightarrow> bool" where
  "is_intensity_update k e =
     (case path e of
        p0 # prop # rest \<Rightarrow>
          p0 = (case k of G1 \<Rightarrow> ''generator1'' | G2 \<Rightarrow> ''generator2'') \<and> prop = ''intensity''
      | _ \<Rightarrow> False)"

text \<open>Channel \<open>k\<close> is selected by the mask while shock mode is on: the test of line 173.\<close>

definition in_shock :: "gen_key \<Rightarrow> state \<Rightarrow> bool" where
  "in_shock k s =
     (truthy (shockMode (boost s))
      \<and> (case py_index (channels (boost s)) (chan_index k) of
           Inl e \<Rightarrow> False
         | Inr c \<Rightarrow> truthy c))"

text \<open>The part of the initial context that belongs to channel \<open>k\<close>.\<close>

definition initial_gen :: "gen_key \<Rightarrow> document \<Rightarrow> gen_context" where
  "initial_gen k d =
     (case k of G1 \<Rightarrow> generator1 (initialContext d) | G2 \<Rightarrow> generator2 (initialContext d))"

text \<open>Both series hold a sample: what the read of \<^verbatim>\<open>['value'][-1]\<close> in line 160 needs.\<close>

definition series_nonempty :: "state \<Rightarrow> bool" where
  "series_nonempty s =
     (value_data (plot_data (g1 s)) \<noteq> [] \<and> value_data (plot_data (g2 s)) \<noteq> [])"

text \<open>The running copy of the mask (line 106, line 121) is the \<^verbatim>\<open>list(...)\<close> of the mask in
  the state.\<close>

definition mask_copied :: "state \<Rightarrow> bool" where
  "mask_copied s = (py_list (channels (boost s)) = Inr (current_boost_channels s))"

section \<open>Documents in the input format\<close>

text \<open>
  The types that the handlers rely on: a number (or a \<^verbatim>\<open>bool\<close>, which Python counts as
  one) for an intensity, an adjust value, the pulse duration and the offset, and a list
  of two entries or more for the channel mask. A mode, the shock flag and the value of an
  event that no handler reads may be anything. A path that starts with a channel or the
  override namespace has a second segment.
\<close>

definition numeric :: "pyval \<Rightarrow> bool" where
  "numeric v = (num_of v \<noteq> None)"









section \<open>Concrete inputs\<close>

definition no_generator :: gen_context where
  "no_generator = \<lparr>intensity = None, adjust = None, mode = None\<rparr>"

definition no_boost :: boost_context where
  "no_boost =
     \<lparr>init_shockMode = None, init_channels = None, init_duration = None, init_offset = None\<rparr>"

definition empty_context :: initial_context where
  "empty_context =
     \<lparr>generator1 = no_generator, generator2 = no_generator, init_boost = no_boost\<rparr>"

definition mk_event :: "int \<Rightarrow> string list \<Rightarrow> pyval \<Rightarrow> event" where
  "mk_event t p v = \<lparr>ts = Some t, path = p, val = v, event_type = Some ''state''\<rparr>"

definition fire_at :: "int \<Rightarrow> event" where
  "fire_at t = \<lparr>ts = Some t, path = [''boost'', ''fire''], val = PNone, event_type = Some ''action''\<rparr>"

text \<open>The first channel at 50 and selected by the mask, offset 10: a fire action at 2000
  and, after it in the list, an intensity command of the same millisecond.\<close>

definition pulse_session :: document where
  "pulse_session =
     \<lparr>metadata_duration = None,
      initialContext =
        \<lparr>generator1 = no_generator\<lparr>intensity := Some (PNum 50)\<rparr>,
         generator2 = no_generator,
         init_boost = no_boost\<lparr>init_channels := Some (PList [PBool True, PBool False]),
                                init_offset := Some (PNum 10)\<rparr>\<rparr>,
      data = [fire_at 2000, mk_event 2000 [''generator1'', ''intensity''] (PNum 70)]\<rparr>"

text \<open>Shock mode on from the start, the first channel selected and at 40; one intensity
  command.\<close>

definition shock_session :: document where
  "shock_session =
     \<lparr>metadata_duration = None,
      initialContext =
        \<lparr>generator1 = no_generator\<lparr>intensity := Some (PNum 40)\<rparr>,
         generator2 = no_generator,
         init_boost = no_boost\<lparr>init_shockMode := Some (PBool True),
                                init_channels := Some (PList [PBool True, PBool False])\<rparr>\<rparr>,
      data = [mk_event 1000 [''generator1'', ''intensity''] (PNum 60)]\<rparr>"

text \<open>An event without a timestamp.\<close>

definition untimed :: event where
  "untimed =
     \<lparr>ts = None, path = [''generator1'', ''intensity''], val = PNum 99,
      event_type = Some ''state''\<rparr>"

text \<open>Four events in two orders: the two events at 2000 keep their order, the event at
  1000 and the event without a timestamp move.\<close>

definition shuffled_a :: document where
  "shuffled_a =
     pulse_session\<lparr>data :=
       [mk_event 2000 [''generator1'', ''intensity''] (PNum 70),
        untimed,
        mk_event 1000 [''generator1'', ''adjust''] (PNum 30),
        fire_at 2000]\<rparr>"

definition shuffled_b :: document where
  "shuffled_b =
     pulse_session\<lparr>data :=
       [mk_event 1000 [''generator1'', ''adjust''] (PNum 30),
        mk_event 2000 [''generator1'', ''intensity''] (PNum 70),
        fire_at 2000,
        untimed]\<rparr>"


text \<open>A declared duration and a single timestamp that are both negative.\<close>

definition negative_session :: document where
  "negative_session =
     \<lparr>metadata_duration = Some (- 3), initialContext = empty_context,
      data = [mk_event (- 5) [''generator1'', ''mode''] (PStr ''m'')]\<rparr>"

text \<open>Events that run later than the declared duration, given out of order.\<close>

definition late_session :: document where
  "late_session =
     \<lparr>metadata_duration = Some 5000, initialContext = empty_context,
      data = [mk_event 7000 [''generator1'', ''intensity''] (PNum 60),
              mk_event 1000 [''generator1'', ''intensity''] (PNum 40)]\<rparr>"

text \<open>An initial context whose first channel starts in the mode \<^verbatim>\<open>'wave'\<close>.\<close>

definition wave_session :: document where
  "wave_session =
     \<lparr>metadata_duration = None,
      initialContext = empty_context\<lparr>generator1 := no_generator\<lparr>mode := Some (PStr ''wave'')\<rparr>\<rparr>,
      data = []\<rparr>"

text \<open>An initial context whose first channel starts in the mode with id 0.\<close>

definition falsy_mode_session :: document where
  "falsy_mode_session =
     \<lparr>metadata_duration = None,
      initialContext = empty_context\<lparr>generator1 := no_generator\<lparr>mode := Some (PNum 0)\<rparr>\<rparr>,
      data = []\<rparr>"

text \<open>Two intensity commands for the first channel in the same millisecond, 10 then 3.\<close>

definition same_tick_session :: document where
  "same_tick_session =
     \<lparr>metadata_duration = None, initialContext = empty_context,
      data = [mk_event 5 [''generator1'', ''intensity''] (PNum 10),
              mk_event 5 [''generator1'', ''intensity''] (PNum 3)]\<rparr>"

text \<open>The same with \<^verbatim>\<open>null\<close> for the second value.\<close>

definition null_tick_session :: document where
  "null_tick_session =
     \<lparr>metadata_duration = None, initialContext = empty_context,
      data = [mk_event 5 [''generator1'', ''intensity''] (PNum 10),
              mk_event 5 [''generator1'', ''intensity''] PNone]\<rparr>"


section \<open>Evaluation on concrete inputs\<close>

lemmas context_defs = empty_context_def no_generator_def no_boost_def mk_event_def fire_at_def

lemmas init_defs = init_state_def init_generator_def init_boost_state_def init_modes_def
  get_default_def bind_def Let_def

lemmas loop_defs = step_def boost_event_def generator_event_def shock_channel_def
  fire_channel_def set_boost_def boost_keys_def plot_append_def adjust_plot_append_def
  append_sample_def py_last_def ts_or_0_def

lemmas final_defs = finalize_def sort_generator_def sort_plot_def extend_adjust_def
  pair_lt_def total_duration_ms_def max_ts_in_data_def

lemmas run_defs = process_stimulation_data_def replay_def

section \<open>Sequencing and the state accessors\<close>

lemma bind_Inr_iff: "bind m f = Inr y \<longleftrightarrow> (\<exists>x. m = Inr x \<and> f x = Inr y)"
  by (cases m) (simp_all add: bind_def)

lemma bind_Inr [simp]: "bind (Inr x) f = f x"
  by (simp add: bind_def)

lemma bind_Inl [simp]: "bind (Inl e) f = Inl e"
  by (simp add: bind_def)

lemma gen_set_gen: "gen k (set_gen k' g s) = (if k = k' then g else gen k s)"
  by (cases k; cases k') simp_all

lemma set_gen_frame [simp]:
  "boost (set_gen k g s) = boost s"
  "fire_events (set_gen k g s) = fire_events s"
  "current_boost_channels (set_gen k g s) = current_boost_channels s"
  "modes k' (set_gen k g s) = modes k' s"
  by (cases k; cases k'; simp)+

lemma set_modes_frame [simp]:
  "boost (set_modes k m s) = boost s"
  "fire_events (set_modes k m s) = fire_events s"
  "current_boost_channels (set_modes k m s) = current_boost_channels s"
  "gen k' (set_modes k m s) = gen k' s"
  by (cases k; cases k'; simp)+

lemma plot_append_frame [simp]:
  "boost (plot_append k t v s) = boost s"
  "fire_events (plot_append k t v s) = fire_events s"
  "current_boost_channels (plot_append k t v s) = current_boost_channels s"
  "modes k' (plot_append k t v s) = modes k' s"
  by (simp_all add: plot_append_def)

lemma adjust_plot_append_frame [simp]:
  "boost (adjust_plot_append k t v s) = boost s"
  "fire_events (adjust_plot_append k t v s) = fire_events s"
  "current_boost_channels (adjust_plot_append k t v s) = current_boost_channels s"
  "modes k' (adjust_plot_append k t v s) = modes k' s"
  by (simp_all add: adjust_plot_append_def)

lemma value_data_plot_append:
  "value_data (plot_data (gen k' (plot_append k t v s)))
     = (if k' = k then value_data (plot_data (gen k s)) @ [v]
        else value_data (plot_data (gen k' s)))"
  by (simp add: plot_append_def gen_set_gen append_sample_def)

lemma plot_data_adjust_plot_append [simp]:
  "plot_data (gen k' (adjust_plot_append k t v s)) = plot_data (gen k' s)"
  by (simp add: adjust_plot_append_def gen_set_gen)

section \<open>The session end\<close>

lemma fold_max_max: "fold max xs (max c (b::int)) = max c (fold max xs b)"
proof (induction xs arbitrary: b)
  case Nil
  show ?case by simp
next
  case (Cons a xs)
  have "max a (max c b) = max c (max a b)"
    by (rule max.left_commute)
  then show ?case by (simp add: Cons.IH)
qed

lemma fold_max_Max: "fold max xs (a::int) = Max (insert a (set xs))"
  using Max.set_eq_fold [of a xs] by simp

lemma max_ts_in_data_Max:
  "es \<noteq> [] \<Longrightarrow> max_ts_in_data es = Max (ts_or_0 ` set es)"
  by (cases es) (simp_all add: max_ts_in_data_def fold_max_Max)

lemma max_ts_in_data_Nil: "max_ts_in_data [] = 0"
  by (simp add: max_ts_in_data_def)

lemma spec_ts_fold:
  "max 0 (fold max (concat (map (\<lambda>e. case ts e of None \<Rightarrow> [] | Some t \<Rightarrow> [t]) es)) b)
     = max 0 (fold max (map ts_or_0 es) b)"
proof (induction es arbitrary: b)
  case Nil
  show ?case by simp
next
  case (Cons e es)
  show ?case
  proof (cases "ts e")
    case None
    then show ?thesis
      using Cons.IH [of b] by (simp add: ts_or_0_def get_default_def fold_max_max)
  next
    case (Some t)
    then show ?thesis
      using Cons.IH [of "max t b"] by (simp add: ts_or_0_def get_default_def)
  qed
qed

lemma max_ts_in_data_fold: "max 0 (max_ts_in_data es) = max 0 (fold max (map ts_or_0 es) 0)"
  by (cases es) (simp_all add: max_ts_in_data_def fold_max_max max.commute max.left_commute)

text \<open>The formula of the specification is the value of the code, floored at 0.\<close>

lemma spec_session_end_eq: "spec_session_end d = max 0 (total_duration_ms d)"
proof -
  let ?f = "\<lambda>e. case ts e of None \<Rightarrow> [] | Some t \<Rightarrow> [t]"
  show ?thesis
  proof (cases "metadata_duration d")
    case None
    have "spec_session_end d = max 0 (fold max (concat (map ?f (data d))) 0)"
      using None fold_max_max [of "concat (map ?f (data d))" 0 0]
      by (simp add: spec_session_end_def)
    also have "\<dots> = max 0 (max_ts_in_data (data d))"
      by (simp add: spec_ts_fold max_ts_in_data_fold)
    finally show ?thesis using None
      by (simp add: total_duration_ms_def get_default_def)
  next
    case (Some x)
    have "spec_session_end d = max x (fold max (concat (map ?f (data d))) 0)"
      using Some fold_max_max [of "concat (map ?f (data d))" x 0]
      by (simp add: spec_session_end_def)
    also have "\<dots> = max x (max 0 (fold max (concat (map ?f (data d))) 0))"
      using fold_max_max [of "concat (map ?f (data d))" 0 0] by simp
    also have "\<dots> = max x (max 0 (max_ts_in_data (data d)))"
      by (simp add: spec_ts_fold max_ts_in_data_fold)
    finally show ?thesis using Some
      by (simp add: total_duration_ms_def get_default_def max.left_commute)
  qed
qed

text \<open>
  Claim C6, as stated, fails: with a declared duration of \<open>-3\<close> and one event at \<open>-5\<close>
  the code resolves the session end to \<open>-3\<close>, where the maximum with 0 is 0. The 0 of
  the code is the default of an absent duration and of an empty event list, not a floor.
\<close>

theorem session_end_counterexample:
  "total_duration_ms negative_session = - 3 \<and> spec_session_end negative_session = 0"
  by (simp add: negative_session_def total_duration_ms_def spec_session_end_def
      max_ts_in_data_def ts_or_0_def get_default_def mk_event_def)

text \<open>
  Claim C6, amended: the session end is the maximum of the declared duration (0 when
  absent) and of the largest timestamp of the raw events (an event without a timestamp
  counts 0, an empty list gives 0). It agrees with the formula of the specification
  whenever it is not negative, and it is not negative exactly when the declared duration
  is absent or not negative, or there is no event, or some event has no timestamp or a
  timestamp that is not negative.
\<close>

theorem session_end_amended:
  "total_duration_ms d =
     max (get_default (metadata_duration d) 0)
         (if data d = [] then 0 else Max (ts_or_0 ` set (data d)))
   \<and> (0 \<le> total_duration_ms d \<longrightarrow> total_duration_ms d = spec_session_end d)
   \<and> (0 \<le> total_duration_ms d \<longleftrightarrow>
        0 \<le> get_default (metadata_duration d) 0 \<or> data d = []
        \<or> (\<exists>e \<in> set (data d). 0 \<le> ts_or_0 e))"
proof (intro conjI)
  show eq: "total_duration_ms d =
     max (get_default (metadata_duration d) 0)
         (if data d = [] then 0 else Max (ts_or_0 ` set (data d)))"
    by (simp add: total_duration_ms_def max_ts_in_data_Max max_ts_in_data_Nil)
  show "0 \<le> total_duration_ms d \<longrightarrow> total_duration_ms d = spec_session_end d"
    by (simp add: spec_session_end_eq)
  show "0 \<le> total_duration_ms d \<longleftrightarrow>
        0 \<le> get_default (metadata_duration d) 0 \<or> data d = []
        \<or> (\<exists>e \<in> set (data d). 0 \<le> ts_or_0 e)"
  proof (cases "data d = []")
    case True
    then show ?thesis by (simp add: eq)
  next
    case False
    then have "0 \<le> Max (ts_or_0 ` set (data d)) \<longleftrightarrow> (\<exists>e \<in> set (data d). 0 \<le> ts_or_0 e)"
      by (subst Max_ge_iff) auto
    with False show ?thesis by (auto simp add: eq le_max_iff_disj)
  qed
qed

text \<open>Claim C6, amended, at a session whose events run later than the declared
  duration: both give 7000.\<close>

theorem session_end_amended_witness:
  "total_duration_ms late_session = 7000 \<and> spec_session_end late_session = 7000"
  using session_end_amended [of late_session]
  by (simp add: late_session_def get_default_def ts_or_0_def mk_event_def)

section \<open>The initial mode\<close>

text \<open>
  Claim C9, as stated, fails at an initial mode with id 0: the field is present, and the
  timeline of the channel starts empty, since line 96 tests the truth value of the mode.
\<close>

theorem initial_mode_zero_dropped:
  "\<exists>s. process_stimulation_data falsy_mode_session = Inr s \<and> modes G1 s = []"
  by (simp add: falsy_mode_session_def run_defs context_defs init_defs final_defs)

text \<open>
  Claim C9, amended: when the mode field of a channel is present with a value that counts
  as true (a non-empty string or list, a number other than 0, \<^verbatim>\<open>true\<close>), the mode timeline
  of that channel starts with exactly one entry, at time 0 and with that mode; when the
  field is absent the timeline starts empty.
\<close>

theorem initial_mode_timeline:
  assumes "init_state d = Inr s"
  shows "(mode (initial_gen k d) = Some v \<and> truthy v \<longrightarrow> modes k s = [(0, v)])
         \<and> (mode (initial_gen k d) = None \<longrightarrow> modes k s = [])"
  using assms
  by (cases k)
    (auto simp add: init_state_def Let_def bind_Inr_iff init_modes_def get_default_def
      initial_gen_def)

text \<open>Claim C9, amended, at a first channel that starts in the mode \<^verbatim>\<open>'wave'\<close> and a
  second channel without a mode.\<close>

theorem initial_mode_timeline_witness:
  "\<exists>s. init_state wave_session = Inr s
     \<and> modes G1 s = [(0, PStr ''wave'')] \<and> modes G2 s = []"
proof -
  have "\<exists>s. init_state wave_session = Inr s"
    by (simp add: wave_session_def context_defs init_defs)
  then obtain s where init: "init_state wave_session = Inr s" by blast
  have m: "mode (initial_gen G1 wave_session) = Some (PStr ''wave'')" "truthy (PStr ''wave'')"
    "mode (initial_gen G2 wave_session) = None"
    by (simp_all add: wave_session_def initial_gen_def context_defs)
  from initial_mode_timeline [OF init, of G1 "PStr ''wave''"]
    initial_mode_timeline [OF init, of G2 "PStr ''wave''"] m init
  show ?thesis by auto
qed


section \<open>Samples of one timestamp\<close>

text \<open>
  Claim C1 at two intensity commands of the same millisecond, 10 then 3: the samples are
  appended in that order, a stable sort by timestamp leaves them so, and the finalised
  series has 3 before 10, since line 202 sorts the \<^verbatim>\<open>(time, value)\<close> tuples and the value
  decides between equal times.
\<close>

theorem same_tick_reordered:
  "\<exists>s s'. replay same_tick_session = Inr s
     \<and> plot_data (gen G1 s) = \<lparr>time_data = [0, 5, 5], value_data = [PNum 0, PNum 10, PNum 3]\<rparr>
     \<and> spec_stable_sort (plot_data (gen G1 s)) = plot_data (gen G1 s)
     \<and> process_stimulation_data same_tick_session = Inr s'
     \<and> plot_data (gen G1 s') = \<lparr>time_data = [0, 5, 5], value_data = [PNum 0, PNum 3, PNum 10]\<rparr>"
  by (simp add: same_tick_session_def run_defs context_defs init_defs loop_defs final_defs
      spec_stable_sort_def)

text \<open>That the values are compared at all shows at a tie of 10 and \<^verbatim>\<open>null\<close>: the two have
  no order, and the sort raises where a sort by timestamp alone would not.\<close>

lemma same_tick_values_compared:
  "\<exists>s. replay null_tick_session = Inr s
     \<and> plot_data (gen G1 s) = \<lparr>time_data = [0, 5, 5], value_data = [PNum 0, PNum 10, PNone]\<rparr>
     \<and> process_stimulation_data null_tick_session = Inl TypeError"
  by (simp add: null_tick_session_def run_defs context_defs init_defs loop_defs final_defs)

section \<open>Input errors at the command line\<close>




section \<open>Sorted series\<close>













section \<open>Series are never empty\<close>

lemma series_nonempty_gen:
  "series_nonempty s \<longleftrightarrow> (\<forall>k. value_data (plot_data (gen k s)) \<noteq> [])"
proof
  assume a: "series_nonempty s"
  show "\<forall>k. value_data (plot_data (gen k s)) \<noteq> []"
  proof
    fix k
    from a show "value_data (plot_data (gen k s)) \<noteq> []"
      by (cases k) (simp_all add: series_nonempty_def)
  qed
next
  assume a: "\<forall>k. value_data (plot_data (gen k s)) \<noteq> []"
  from a [rule_format, of G1] a [rule_format, of G2] show "series_nonempty s"
    by (simp add: series_nonempty_def)
qed

lemma series_nonempty_plot_append:
  "series_nonempty s \<Longrightarrow> series_nonempty (plot_append k t v s)"
  by (simp add: series_nonempty_gen value_data_plot_append)

lemma series_nonempty_frame:
  "series_nonempty (set_gen k ((gen k s)\<lparr>base_intensity := v\<rparr>) s) = series_nonempty s"
  "series_nonempty (set_gen k ((gen k s)\<lparr>adjust_value := v\<rparr>) s) = series_nonempty s"
  "series_nonempty (adjust_plot_append k t v s) = series_nonempty s"
  "series_nonempty (set_modes k m s) = series_nonempty s"
  by (auto simp add: series_nonempty_gen gen_set_gen)

lemma series_nonempty_update:
  "series_nonempty (s\<lparr>boost := b\<rparr>) = series_nonempty s"
  "series_nonempty (s\<lparr>fire_events := f\<rparr>) = series_nonempty s"
  "series_nonempty (s\<lparr>current_boost_channels := c\<rparr>) = series_nonempty s"
  by (simp_all add: series_nonempty_def)

lemma series_nonempty_init: "init_state d = Inr s \<Longrightarrow> series_nonempty s"
  by (auto simp add: init_state_def Let_def bind_Inr_iff series_nonempty_def init_generator_def)

lemma series_nonempty_shock_channel:
  "series_nonempty s \<Longrightarrow> shock_channel t v k s = Inr s' \<Longrightarrow> series_nonempty s'"
  by (auto simp add: shock_channel_def bind_Inr_iff series_nonempty_plot_append
      split: if_splits)

lemma series_nonempty_fire_channel:
  "series_nonempty s \<Longrightarrow> fire_channel t k s = Inr s' \<Longrightarrow> series_nonempty s'"
  by (auto simp add: fire_channel_def bind_Inr_iff Let_def series_nonempty_plot_append
      split: if_splits option.splits)

lemma series_nonempty_boost_event:
  "series_nonempty s \<Longrightarrow> boost_event t prop v ty s = Inr s' \<Longrightarrow> series_nonempty s'"
  by (auto simp add: boost_event_def bind_Inr_iff series_nonempty_update
      split: if_splits
      dest!: series_nonempty_shock_channel [rotated] series_nonempty_fire_channel [rotated])

lemma series_nonempty_generator_event:
  "series_nonempty s \<Longrightarrow> generator_event t k prop v s = Inr s' \<Longrightarrow> series_nonempty s'"
  by (auto simp add: generator_event_def bind_Inr_iff Let_def series_nonempty_plot_append
      series_nonempty_frame split: if_splits)

lemma series_nonempty_step:
  "series_nonempty s \<Longrightarrow> step s e = Inr s' \<Longrightarrow> series_nonempty s'"
  by (auto simp add: step_def split: option.splits list.splits if_splits
      dest: series_nonempty_boost_event series_nonempty_generator_event)

lemma series_nonempty_dispatch:
  "series_nonempty s \<Longrightarrow> dispatch s es = Inr s' \<Longrightarrow> series_nonempty s'"
proof (induction es arbitrary: s)
  case Nil
  then show ?case by simp
next
  case (Cons e es)
  then show ?case
    by (auto simp add: bind_Inr_iff dest: series_nonempty_step)
qed

text \<open>
  Claim C10: in the state that initialisation gives and in every state that the event loop
  reaches from it, on any list of events, the value list of each channel's series is not
  empty, so the read of its last element (line 160) is in bounds.
\<close>

theorem series_never_empty:
  assumes "init_state d = Inr s0" and "dispatch s0 es = Inr s"
  shows "value_data (plot_data (gen k s)) \<noteq> []
         \<and> py_last (value_data (plot_data (gen k s)))
             = Inr (last (value_data (plot_data (gen k s))))"
proof -
  have "series_nonempty s"
    using assms by (blast intro: series_nonempty_init series_nonempty_dispatch)
  then show ?thesis
    by (simp add: series_nonempty_gen py_last_def)
qed

text \<open>Claim C10 after a fire action on the first channel: the read gave the seed 50, and
  the series has grown to three samples.\<close>

theorem series_never_empty_witness:
  "\<exists>s0 s. init_state pulse_session = Inr s0 \<and> dispatch s0 [fire_at 2000] = Inr s
     \<and> value_data (plot_data (gen G1 s)) = [PNum 50, PNum 60, PNum 50]
     \<and> py_last (value_data (plot_data (gen G1 s))) = Inr (PNum 50)"
proof -
  have "\<exists>s0 s. init_state pulse_session = Inr s0 \<and> dispatch s0 [fire_at 2000] = Inr s
          \<and> value_data (plot_data (gen G1 s)) = [PNum 50, PNum 60, PNum 50]"
    by (simp add: pulse_session_def context_defs init_defs loop_defs)
  then obtain s0 s where init: "init_state pulse_session = Inr s0"
    and run: "dispatch s0 [fire_at 2000] = Inr s"
    and vs: "value_data (plot_data (gen G1 s)) = [PNum 50, PNum 60, PNum 50]"
    by blast
  from series_never_empty [OF init run, of G1] init run vs show ?thesis by auto
qed

section \<open>Intensity commands under shock\<close>

text \<open>
  Claim C3: an intensity update for a channel that the mask selects while shock mode is on
  is processed without error, appends no sample to the series of that channel, and sets
  \<^verbatim>\<open>base_intensity\<close> to the commanded value; nothing else of the state changes.
\<close>

theorem shock_suppression:
  assumes "ts e = Some t" and "is_intensity_update k e" and "in_shock k s"
  shows "\<exists>s'. step s e = Inr s'
           \<and> plot_data (gen k s') = plot_data (gen k s)
           \<and> base_intensity (gen k s') = val e
           \<and> s' = set_gen k ((gen k s)\<lparr>base_intensity := val e\<rparr>) s"
proof -
  from assms(2) obtain p0 rest where
    p: "path e = p0 # ''intensity'' # rest"
       "p0 = (case k of G1 \<Rightarrow> ''generator1'' | G2 \<Rightarrow> ''generator2'')"
    by (auto simp add: is_intensity_update_def split: list.splits)
  from assms(3) obtain c where
    c: "truthy (shockMode (boost s))" "py_index (channels (boost s)) (chan_index k) = Inr c"
       "truthy c"
    by (auto simp add: in_shock_def split: sum.splits)
  have k: "(if p0 = ''generator1'' then G1 else G2) = k" "p0 \<noteq> ''boost''"
          "p0 = ''generator1'' \<or> p0 = ''generator2''"
    using p(2) by (cases k; simp)+
  have "step s e = generator_event t k ''intensity'' (val e) s"
    using assms(1) p(1) k by (simp add: step_def)
  also have "\<dots> = Inr (set_gen k ((gen k s)\<lparr>base_intensity := val e\<rparr>) s)"
    using c by (simp add: generator_event_def Let_def)
  finally show ?thesis by (simp add: gen_set_gen)
qed

text \<open>Claim C3 at a session that starts in shock mode with the first channel selected:
  the command of 60 leaves the series at its seed and moves the base to 60.\<close>

theorem shock_suppression_witness:
  "\<exists>s0 s'. init_state shock_session = Inr s0
     \<and> step s0 (mk_event 1000 [''generator1'', ''intensity''] (PNum 60)) = Inr s'
     \<and> plot_data (gen G1 s') = \<lparr>time_data = [0], value_data = [PNum 40]\<rparr>
     \<and> base_intensity (gen G1 s') = PNum 60"
proof -
  let ?e = "mk_event 1000 [''generator1'', ''intensity''] (PNum 60)"
  have "\<exists>s0. init_state shock_session = Inr s0 \<and> in_shock G1 s0
          \<and> plot_data (gen G1 s0) = \<lparr>time_data = [0], value_data = [PNum 40]\<rparr>"
    by (simp add: shock_session_def context_defs init_defs in_shock_def)
  then obtain s0 where init: "init_state shock_session = Inr s0" and sh: "in_shock G1 s0"
    and pd: "plot_data (gen G1 s0) = \<lparr>time_data = [0], value_data = [PNum 40]\<rparr>"
    by blast
  have e: "ts ?e = Some 1000" "is_intensity_update G1 ?e" "val ?e = PNum 60"
    by (simp_all add: mk_event_def is_intensity_update_def)
  from shock_suppression [OF e(1) e(2) sh] init pd e(3) show ?thesis by auto
qed

section \<open>Runs to completion\<close>

lemma unknown_first_step: "unknown_first e \<Longrightarrow> step s e = Inr s"
  by (auto simp add: unknown_first_def step_def split: list.splits option.splits)

lemma unknown_field_step: "unknown_field e \<Longrightarrow> step s e = Inr s"
  by (auto simp add: unknown_field_def step_def boost_event_def generator_event_def boost_keys_def
      split: list.splits option.splits)

lemma dispatch_unknown:
  assumes "\<forall>e \<in> set es. unknown_first e \<or> unknown_field e"
  shows "dispatch s es = Inr s"
  using assms
proof (induction es)
  case Nil
  show ?case by simp
next
  case (Cons e es)
  then have "step s e = Inr s"
    by (auto intro: unknown_first_step unknown_field_step)
  with Cons show ?case by simp
qed









lemma numericE: "numeric v \<Longrightarrow> \<exists>r. num_of v = Some r"
  by (simp add: numeric_def)

lemma numeric_PNum [simp]: "numeric (PNum r)"
  by (simp add: numeric_def)
























section \<open>Markers of fire actions\<close>

lemma shock_channel_frame:
  "shock_channel t v k s = Inr s' \<Longrightarrow>
     boost s' = boost s \<and> fire_events s' = fire_events s
     \<and> current_boost_channels s' = current_boost_channels s"
  by (auto simp add: shock_channel_def bind_Inr_iff split: if_splits)

lemma fire_channel_frame:
  "fire_channel t k s = Inr s' \<Longrightarrow>
     boost s' = boost s \<and> fire_events s' = fire_events s
     \<and> current_boost_channels s' = current_boost_channels s"
  by (auto simp add: fire_channel_def bind_Inr_iff Let_def split: if_splits option.splits)

lemma generator_event_frame:
  "generator_event t k prop v s = Inr s' \<Longrightarrow>
     boost s' = boost s \<and> fire_events s' = fire_events s
     \<and> current_boost_channels s' = current_boost_channels s"
  by (auto simp add: generator_event_def bind_Inr_iff Let_def split: if_splits)

lemma shock_channels_frame:
  "bind (shock_channel t v G1 s) (shock_channel t v G2) = Inr s' \<Longrightarrow>
     boost s' = boost s \<and> fire_events s' = fire_events s
     \<and> current_boost_channels s' = current_boost_channels s"
  by (auto simp add: bind_Inr_iff dest!: shock_channel_frame)

lemma fire_channels_frame:
  "bind (fire_channel t G1 s) (fire_channel t G2) = Inr s' \<Longrightarrow>
     boost s' = boost s \<and> fire_events s' = fire_events s
     \<and> current_boost_channels s' = current_boost_channels s"
  by (auto simp add: bind_Inr_iff dest!: fire_channel_frame)

lemma fire_not_boost_key: "''fire'' \<notin> set boost_keys" "''channels'' \<in> set boost_keys"
  by (simp_all add: boost_keys_def)

lemma boost_event_markers:
  assumes "boost_event t prop v ty s = Inr s'"
  shows "fire_events s' =
           fire_events s
             @ (if prop = ''fire'' \<and> ty = Some ''action'' then [(t, current_boost_channels s)]
                else [])"
proof (cases "prop = ''channels''")
  case True
  with assms show ?thesis
    by (auto simp add: boost_event_def bind_Inr_iff)
next
  case False
  note not_channels = this
  show ?thesis
  proof (cases "prop \<in> set boost_keys")
    case True
    then have nf: "prop \<noteq> ''fire''"
      using fire_not_boost_key(1) by auto
    show ?thesis
    proof (cases "prop = ''shockMode'' \<and> \<not> py_eq (shockMode (boost s)) v")
      case True
      with assms not_channels \<open>prop \<in> set boost_keys\<close>
      have "bind (shock_channel t v G1 (s\<lparr>boost := (boost s)\<lparr>shockMode := v\<rparr>\<rparr>))
              (shock_channel t v G2) = Inr s'"
        by (simp add: boost_event_def)
      from shock_channels_frame [OF this] nf show ?thesis by simp
    next
      case False
      with assms not_channels \<open>prop \<in> set boost_keys\<close> nf show ?thesis
        by (auto simp add: boost_event_def)
    qed
  next
    case False
    note not_key = this
    show ?thesis
    proof (cases "prop = ''fire'' \<and> ty = Some ''action''")
      case True
      with assms not_channels not_key
      have "bind (fire_channel t G1
                    (s\<lparr>fire_events := fire_events s @ [(t, current_boost_channels s)]\<rparr>))
              (fire_channel t G2) = Inr s'"
        by (simp add: boost_event_def)
      from fire_channels_frame [OF this] True show ?thesis by simp
    next
      case False
      with assms not_channels not_key show ?thesis
        by (auto simp add: boost_event_def)
    qed
  qed
qed

lemma boost_event_mask_copied:
  assumes "boost_event t prop v ty s = Inr s'" and "mask_copied s"
  shows "mask_copied s'"
  using assms
  by (auto simp add: boost_event_def bind_Inr_iff boost_keys_def mask_copied_def set_boost_def
      split: if_splits dest!: shock_channel_frame fire_channel_frame)

lemma step_markers:
  assumes "step s e = Inr s'"
  shows "fire_events s' =
           fire_events s
             @ (if ts e \<noteq> None \<and> is_fire e then [(the (ts e), current_boost_channels s)]
                else [])"
  using assms
  by (auto simp add: step_def is_fire_def split: option.splits list.splits if_splits
      dest!: boost_event_markers generator_event_frame)

lemma step_mask_copied: "step s e = Inr s' \<Longrightarrow> mask_copied s \<Longrightarrow> mask_copied s'"
  by (auto simp add: step_def split: option.splits list.splits if_splits
      dest: boost_event_mask_copied dest!: generator_event_frame simp add: mask_copied_def)

lemma dispatch_mask_copied: "dispatch s es = Inr s' \<Longrightarrow> mask_copied s \<Longrightarrow> mask_copied s'"
proof (induction es arbitrary: s)
  case Nil
  then show ?case by simp
next
  case (Cons e es)
  then show ?case by (auto simp add: bind_Inr_iff dest: step_mask_copied)
qed

lemma init_mask_copied: "init_state d = Inr s \<Longrightarrow> mask_copied s"
  by (auto simp add: init_state_def Let_def bind_Inr_iff mask_copied_def)

lemma dispatch_markers_kept: "dispatch s es = Inr s' \<Longrightarrow> \<exists>ms. fire_events s' = fire_events s @ ms"
proof (induction es arbitrary: s)
  case Nil
  then show ?case by simp
next
  case (Cons e es)
  then obtain s1 where s1: "step s e = Inr s1" "dispatch s1 es = Inr s'"
    by (auto simp add: bind_Inr_iff)
  from step_markers [OF s1(1)] Cons.IH [OF s1(2)] show ?case by auto
qed

lemma dispatch_append:
  "dispatch s (xs @ ys) = bind (dispatch s xs) (\<lambda>s'. dispatch s' ys)"
proof (induction xs arbitrary: s)
  case Nil
  show ?case by simp
next
  case (Cons x xs)
  then show ?case by (cases "step s x") simp_all
qed

text \<open>
  Claim C4: the fire action \<open>e\<close> at time \<open>t\<close>, processed in the state \<open>s\<close> that the events
  before it have produced, appends the marker \<open>(t, m)\<close> where \<open>m\<close> is the copy of the mask
  of \<open>s\<close>; the markers recorded before are kept, and whatever events follow, the marker
  is still the same in the final state.
\<close>

theorem marker_fidelity:
  assumes "init_state d = Inr s0" and "dispatch s0 (es1 @ e # es2) = Inr s'"
    and "ts e = Some t" and "is_fire e"
  shows "\<exists>s m ms. dispatch s0 es1 = Inr s
           \<and> py_list (channels (boost s)) = Inr m
           \<and> fire_events s' = fire_events s @ (t, m) # ms"
proof -
  from assms(2) obtain s s1 where
    s: "dispatch s0 es1 = Inr s" and s1: "step s e = Inr s1" and s': "dispatch s1 es2 = Inr s'"
    by (auto simp add: dispatch_append bind_Inr_iff)
  have "mask_copied s"
    using init_mask_copied [OF assms(1)] dispatch_mask_copied [OF s] by simp
  then have m: "py_list (channels (boost s)) = Inr (current_boost_channels s)"
    by (simp add: mask_copied_def)
  have "fire_events s1 = fire_events s @ [(t, current_boost_channels s)]"
    using step_markers [OF s1] assms(3,4) by simp
  moreover obtain ms where "fire_events s' = fire_events s1 @ ms"
    using dispatch_markers_kept [OF s'] by blast
  ultimately have "fire_events s' = fire_events s @ (t, current_boost_channels s) # ms"
    by simp
  with s m show ?thesis by blast
qed

text \<open>Claim C4 at a fire action between two updates of the mask: the marker holds the
  mask of the first update, the state that of the second.\<close>

theorem marker_fidelity_witness:
  "\<exists>s0 s'. init_state pulse_session = Inr s0
     \<and> dispatch s0 ([mk_event 500 [''boost'', ''channels''] (PList [PBool False, PBool True])]
                      @ fire_at 2000
                        # [mk_event 3000 [''boost'', ''channels''] (PList [PBool True, PBool True])])
         = Inr s'
     \<and> fire_events s' = [(2000, [PBool False, PBool True])]
     \<and> channels (boost s') = PList [PBool True, PBool True]
     \<and> (\<exists>s m ms. dispatch s0 [mk_event 500 [''boost'', ''channels''] (PList [PBool False, PBool True])]
                     = Inr s
           \<and> py_list (channels (boost s)) = Inr m
           \<and> fire_events s' = fire_events s @ (2000, m) # ms)"
proof -
  let ?es1 = "[mk_event 500 [''boost'', ''channels''] (PList [PBool False, PBool True])]"
  let ?es2 = "[mk_event 3000 [''boost'', ''channels''] (PList [PBool True, PBool True])]"
  have "\<exists>s0 s'. init_state pulse_session = Inr s0
          \<and> dispatch s0 (?es1 @ fire_at 2000 # ?es2) = Inr s'
          \<and> fire_events s' = [(2000, [PBool False, PBool True])]
          \<and> channels (boost s') = PList [PBool True, PBool True]"
    by (simp add: pulse_session_def context_defs init_defs loop_defs)
  then obtain s0 s' where init: "init_state pulse_session = Inr s0"
    and run: "dispatch s0 (?es1 @ fire_at 2000 # ?es2) = Inr s'"
    and rest: "fire_events s' = [(2000, [PBool False, PBool True])]"
      "channels (boost s') = PList [PBool True, PBool True]"
    by blast
  have e: "ts (fire_at 2000) = Some 2000" "is_fire (fire_at 2000)"
    by (simp_all add: fire_at_def is_fire_def)
  from marker_fidelity [OF init run e] init run rest show ?thesis by blast
qed

section \<open>Determinism\<close>

lemma step_no_ts: "ts e = None \<Longrightarrow> step s e = Inr s"
  by (simp add: step_def)

lemma dispatch_filter_ts: "dispatch s (filter (\<lambda>e. ts e \<noteq> None) es) = dispatch s es"
proof (induction es arbitrary: s)
  case Nil
  show ?case by simp
next
  case (Cons e es)
  show ?case
  proof (cases "ts e")
    case None
    then show ?thesis using Cons.IH [of s] by (simp add: step_no_ts)
  next
    case (Some t)
    then show ?thesis
      using Cons.IH by (cases "step s e") simp_all
  qed
qed

lemma sort_filter_ts_eq:
  assumes perm: "mset xs = mset ys"
    and order: "\<And>t. filter (\<lambda>e. ts e = Some t) xs = filter (\<lambda>e. ts e = Some t) ys"
  shows "sort_key ts_or_0 (filter (\<lambda>e. ts e \<noteq> None) xs)
           = sort_key ts_or_0 (filter (\<lambda>e. ts e \<noteq> None) ys)"
proof (rule properties_for_sort_key)
  let ?P = "\<lambda>e. ts e \<noteq> None"
  show "mset (sort_key ts_or_0 (filter ?P ys)) = mset (filter ?P xs)"
    using perm by simp
  show "sorted (map ts_or_0 (sort_key ts_or_0 (filter ?P ys)))"
    by simp
  fix k
  assume "k \<in> set (sort_key ts_or_0 (filter ?P ys))"
  then obtain t where t: "ts k = Some t" by auto
  have same: "(\<lambda>x. ts_or_0 k = ts_or_0 x \<and> ts x \<noteq> None) = (\<lambda>x. ts x = Some t)"
    using t by (auto simp add: ts_or_0_def get_default_def fun_eq_iff)
  have "filter (\<lambda>x. ts_or_0 k = ts_or_0 x) (sort_key ts_or_0 (filter ?P ys))
          = filter (\<lambda>x. ts_or_0 x = ts_or_0 k) (sort_key ts_or_0 (filter ?P ys))"
    by (rule filter_cong) auto
  also have "\<dots> = filter (\<lambda>x. ts_or_0 x = ts_or_0 k) (filter ?P ys)"
    by (rule sort_key_stable)
  also have "\<dots> = filter (\<lambda>x. ts_or_0 k = ts_or_0 x \<and> ts x \<noteq> None) ys"
    by (simp add: conj_commute eq_commute)
  also have "\<dots> = filter (\<lambda>x. ts_or_0 k = ts_or_0 x \<and> ts x \<noteq> None) xs"
    unfolding same by (rule order [symmetric])
  also have "\<dots> = filter (\<lambda>x. ts_or_0 k = ts_or_0 x) (filter ?P xs)"
    by (simp add: conj_commute)
  finally show "filter (\<lambda>x. ts_or_0 k = ts_or_0 x) (sort_key ts_or_0 (filter ?P ys))
                  = filter (\<lambda>x. ts_or_0 k = ts_or_0 x) (filter ?P xs)" .
qed


lemma max_ts_in_data_mset:
  assumes "mset xs = mset ys"
  shows "max_ts_in_data xs = max_ts_in_data ys"
proof (cases "xs = []")
  case True
  with assms show ?thesis by simp
next
  case False
  with assms have "ys \<noteq> []" by auto
  moreover have "set xs = set ys"
    using assms by (rule mset_eq_setD)
  ultimately show ?thesis
    using False by (simp add: max_ts_in_data_Max)
qed

text \<open>
  Claim C7: two documents with the same initial context and declared duration, whose
  event lists are permutations of each other in which the events of each timestamp keep
  their relative order, give the same result: the same error, or the same final state
  with its series, adjust series, mode timelines and markers. Events without a timestamp
  may stand anywhere.
\<close>

theorem replay_deterministic:
  assumes perm: "mset (data d) = mset (data d')"
    and order: "\<forall>t. filter (\<lambda>e. ts e = Some t) (data d)
                    = filter (\<lambda>e. ts e = Some t) (data d')"
    and ctx: "initialContext d = initialContext d'"
    and dur: "metadata_duration d = metadata_duration d'"
  shows "process_stimulation_data d = process_stimulation_data d'"
proof -
  let ?P = "\<lambda>e. ts e \<noteq> None"
  have init: "init_state d = init_state d'"
    using ctx by (simp add: init_state_def)
  have total: "total_duration_ms d = total_duration_ms d'"
    using dur max_ts_in_data_mset [OF perm] by (simp add: total_duration_ms_def)
  have sorted_eq: "sort_key ts_or_0 (filter ?P (data d)) = sort_key ts_or_0 (filter ?P (data d'))"
    using perm order by (intro sort_filter_ts_eq) simp_all
  have "dispatch s (sort_key ts_or_0 (data d)) = dispatch s (sort_key ts_or_0 (data d'))" for s
  proof -
    have "dispatch s (sort_key ts_or_0 (data d))
            = dispatch s (filter ?P (sort_key ts_or_0 (data d)))"
      by (rule dispatch_filter_ts [symmetric])
    also have "\<dots> = dispatch s (filter ?P (sort_key ts_or_0 (data d')))"
      using sorted_eq by (simp only: filter_sort)
    also have "\<dots> = dispatch s (sort_key ts_or_0 (data d'))"
      by (rule dispatch_filter_ts)
    finally show ?thesis .
  qed
  then have "replay d = replay d'"
    using init by (simp add: replay_def)
  with total show ?thesis
    by (simp add: process_stimulation_data_def)
qed

text \<open>Claim C7 at two different orders of four events.\<close>

theorem replay_deterministic_witness:
  "data shuffled_a \<noteq> data shuffled_b
   \<and> process_stimulation_data shuffled_a = process_stimulation_data shuffled_b"
proof -
  have "mset (data shuffled_a) = mset (data shuffled_b)"
    by (simp add: shuffled_a_def shuffled_b_def)
  moreover have "\<forall>t. filter (\<lambda>e. ts e = Some t) (data shuffled_a)
                      = filter (\<lambda>e. ts e = Some t) (data shuffled_b)"
    by (simp add: shuffled_a_def shuffled_b_def mk_event_def fire_at_def untimed_def)
  moreover have "initialContext shuffled_a = initialContext shuffled_b"
    "metadata_duration shuffled_a = metadata_duration shuffled_b"
    by (simp_all add: shuffled_a_def shuffled_b_def)
  ultimately have "process_stimulation_data shuffled_a = process_stimulation_data shuffled_b"
    by (rule replay_deterministic)
  moreover have "data shuffled_a \<noteq> data shuffled_b"
    by (simp add: shuffled_a_def shuffled_b_def mk_event_def untimed_def)
  ultimately show ?thesis by simp
qed

end
